theory Spec2Isabelle
  imports
    Main
    "HOL-Library.AList"
    "HOL-Library.Sublist"
    "HOL-Library.Char_ord"
    "HOL-Library.List_Lexorder"
begin

section \<open>Python values and dictionaries\<close>

text \<open>
  The values that travel through \<^verbatim>\<open>patch_session\<close>: the dumped request, the bound
  parameters and the rows the store returns. A Python \<^verbatim>\<open>dict\<close> keeps its keys in
  insertion order, so it is an association list with distinct keys.
\<close>

datatype pyval =
    PNone
  | PBool bool
  | PInt int
  | PStr string
  | PList "pyval list"
  | PDict "(string \<times> pyval) list"

type_synonym pydict = "(string \<times> pyval) list"

text \<open>Truth value of an object, as \<^verbatim>\<open>x or y\<close> tests it.\<close>

fun truthy :: "pyval \<Rightarrow> bool" where
  "truthy PNone = False"
| "truthy (PBool b) = b"
| "truthy (PInt i) = (i \<noteq> 0)"
| "truthy (PStr s) = (s \<noteq> [])"
| "truthy (PList xs) = (xs \<noteq> [])"
| "truthy (PDict kvs) = (kvs \<noteq> [])"

definition py_or :: "pyval \<Rightarrow> pyval \<Rightarrow> pyval" where
  "py_or a b = (if truthy a then a else b)"

text \<open>\<^verbatim>\<open>d.pop(k, default)\<close>: the value returned, and the dictionary left behind.\<close>

definition pop_value :: "string \<Rightarrow> pyval \<Rightarrow> pydict \<Rightarrow> pyval" where
  "pop_value k dflt d = (case map_of d k of None \<Rightarrow> dflt | Some v \<Rightarrow> v)"

definition pop_rest :: "string \<Rightarrow> pydict \<Rightarrow> pydict" where
  "pop_rest k d = filter (\<lambda>kv. fst kv \<noteq> k) d"

text \<open>
  A dictionary display \<^verbatim>\<open>{k1: v1, ..., **d}\<close> stores its items from left to right: a key
  that comes again keeps its first position and takes the later value.
\<close>

definition dict_display :: "pydict \<Rightarrow> pydict" where
  "dict_display items = foldl (\<lambda>acc kv. AList.update (fst kv) (snd kv) acc) [] items"

text \<open>Exceptions: the class raised and its message.\<close>

datatype exn_class = QueryException | ValidationError | TypeError | KeyError | IndexError

type_synonym exn = "exn_class \<times> string"

text \<open>\<^verbatim>\<open>x[0]\<close> on a value.\<close>

fun subscript0 :: "pyval \<Rightarrow> exn + pyval" where
  "subscript0 (PList []) = Inl (IndexError, ''list index out of range'')"
| "subscript0 (PList (x # xs)) = Inr x"
| "subscript0 (PStr []) = Inl (IndexError, ''string index out of range'')"
| "subscript0 (PStr (c # cs)) = Inr (PStr [c])"
| "subscript0 (PDict kvs) = Inl (KeyError, ''0'')"
| "subscript0 PNone = Inl (TypeError, '''NoneType' object is not subscriptable'')"
| "subscript0 (PBool b) = Inl (TypeError, '''bool' object is not subscriptable'')"
| "subscript0 (PInt i) = Inl (TypeError, '''int' object is not subscriptable'')"

section \<open>Strings\<close>

text \<open>\<^verbatim>\<open>s.split(",")\<close>: every comma separates; the empty string gives one empty piece.\<close>

fun split_comma :: "string \<Rightarrow> string list" where
  "split_comma [] = [[]]"
| "split_comma (c # cs) =
     (if c = CHR '','' then [] # split_comma cs
      else (case split_comma cs of [] \<Rightarrow> [[c]] | w # ws \<Rightarrow> (c # w) # ws))"

text \<open>\<^verbatim>\<open>sep.join(xs)\<close>.\<close>

fun join :: "string \<Rightarrow> string list \<Rightarrow> string" where
  "join sep [] = []"
| "join sep [x] = x"
| "join sep (x # y # ys) = x @ sep @ join sep (y # ys)"

section \<open>What \<^verbatim>\<open>patch_session\<close> imports\<close>

datatype uuid = UUID string

text \<open>\<^verbatim>\<open>str(u)\<close> of a UUID, which is kept here by its canonical text.\<close>

fun str_uuid :: "uuid \<Rightarrow> string" where
  "str_uuid (UUID s) = s"

text \<open>
  Modelled from the spec: \<^verbatim>\<open>cozo_process_mutate_data\<close>
  (\<^verbatim>\<open>agents_api/common/utils/cozo.py\<close> is not among the sources). It prepares what section
  4.2 (a) calls the parameterized input relation of the supplied values: the names of the
  columns, in one string that \<^verbatim>\<open>patch_session\<close> splits at the commas, and one row with the
  values in the same order.
\<close>

definition cozo_process_mutate_data :: "pydict \<Rightarrow> string \<times> pyval" where
  "cozo_process_mutate_data data =
     (join '','' (map fst data), PList [PList (map snd data)])"

text \<open>
  The other imports are taken as they come. \<^verbatim>\<open>list(s)\<close> of a set \<open>s\<close> enumerates it in an
  order that Python does not specify, and the two statements that check the developer are
  built by functions of \<^verbatim>\<open>models/utils.py\<close>, which is not among the sources either.
\<close>

record collaborators =
  list_of_set :: "string set \<Rightarrow> string list"
  verify_developer_id_query :: "uuid \<Rightarrow> string"
  verify_developer_owns_resource_query :: "uuid \<Rightarrow> string \<Rightarrow> (string \<times> uuid) list \<Rightarrow> string"

text \<open>An enumeration lists the elements of every finite set, each once.\<close>

definition enumerates :: "(string set \<Rightarrow> string list) \<Rightarrow> bool" where
  "enumerates f = (\<forall>S. finite S \<longrightarrow> set (f S) = S \<and> distinct (f S))"

text \<open>A concrete choice of collaborators, to run the model on examples.\<close>

definition sample_env :: collaborators where
  "sample_env =
     \<lparr> list_of_set = sorted_list_of_set,
       verify_developer_id_query = (\<lambda>d. ''developer '' @ str_uuid d),
       verify_developer_owns_resource_query =
         (\<lambda>d r ids. ''owner '' @ str_uuid d @ '' '' @ r @ '' '' @ join '','' (map (str_uuid \<circ> snd) ids)) \<rparr>"

section \<open>\<^verbatim>\<open>patch_session\<close>\<close>

text \<open>The module's list \<^verbatim>\<open>_fields\<close>.\<close>

definition fields :: "string list" where
  "fields = [''situation'', ''summary'', ''created_at'', ''session_id'', ''developer_id'']"

text \<open>
  The argument \<open>data\<close> is \<^verbatim>\<open>data.model_dump(exclude_unset=True)\<close>, the dictionary of the
  fields that the request sets. \<^verbatim>\<open>metadata = update_data.pop("metadata", {}) or {}\<close>:
\<close>

definition metadata_arg :: "pydict \<Rightarrow> pyval" where
  "metadata_arg data = py_or (pop_value ''metadata'' (PDict []) data) (PDict [])"

text \<open>
  \<^verbatim>\<open>{k: v for k, v in update_data.items() if v is not None}\<close>, after the pop
  (lines 75 and 85).
\<close>

definition supplied :: "pydict \<Rightarrow> pydict" where
  "supplied data = filter (\<lambda>kv. snd kv \<noteq> PNone) (pop_rest ''metadata'' data)"

definition session_update_cols :: "pydict \<Rightarrow> string" where
  "session_update_cols data = fst (cozo_process_mutate_data (supplied data))"

definition session_update_vals :: "pydict \<Rightarrow> pyval" where
  "session_update_vals data = snd (cozo_process_mutate_data (supplied data))"

definition session_update_cols_lst :: "pydict \<Rightarrow> string list" where
  "session_update_cols_lst data = split_comma (session_update_cols data)"

definition all_fields_lst :: "collaborators \<Rightarrow> pydict \<Rightarrow> string list" where
  "all_fields_lst env data =
     list_of_set env (set (session_update_cols_lst data) \<union> set fields)"

definition all_fields :: "collaborators \<Rightarrow> pydict \<Rightarrow> string" where
  "all_fields env data = join '', '' (all_fields_lst env data)"

definition rest_fields_lst :: "collaborators \<Rightarrow> pydict \<Rightarrow> string list" where
  "rest_fields_lst env data =
     list_of_set env (set (all_fields_lst env data) - set (map fst (supplied data)))"

definition rest_fields :: "collaborators \<Rightarrow> pydict \<Rightarrow> string" where
  "rest_fields env data = join '', '' (rest_fields_lst env data)"

text \<open>The f-string of lines 90 to 108, with its three holes.\<close>

definition update_query :: "string \<Rightarrow> string \<Rightarrow> string \<Rightarrow> string" where
  \<open>update_query cols all rest = concat
     [''\<newline>        input['', cols, ''] <- $session_update_vals\<newline>'',
      ''        ids[session_id, developer_id] <- [[to_uuid($session_id), to_uuid($developer_id)]]\<newline>'',
      ''        \<newline>'',
      ''        ?['', all, '', metadata, updated_at] :=\<newline>'',
      ''            input['', cols, ''],\<newline>'',
      ''            ids[session_id, developer_id],\<newline>'',
      ''            *sessions{\<newline>'',
      ''                '', rest, '', metadata: md, @ "END"\<newline>'',
      ''            },\<newline>'',
      ''            '', ''updated_at = 'ASSERT','', ''\<newline>'',
      ''            '', ''metadata = concat(md, $metadata),'', ''\<newline>'',
      ''\<newline>'',
      ''        :put sessions {\<newline>'',
      ''            '', all, '', metadata, updated_at\<newline>'',
      ''        }\<newline>'',
      ''\<newline>'',
      ''        :returning\<newline>'',
      ''    '']\<close>

definition queries :: "collaborators \<Rightarrow> uuid \<Rightarrow> uuid \<Rightarrow> pydict \<Rightarrow> string list" where
  "queries env session_id developer_id data =
     [verify_developer_id_query env developer_id,
      verify_developer_owns_resource_query env developer_id ''sessions''
        [(''session_id'', session_id)],
      update_query (session_update_cols data) (all_fields env data) (rest_fields env data)]"

definition patch_session ::
  "collaborators \<Rightarrow> uuid \<Rightarrow> uuid \<Rightarrow> pydict \<Rightarrow> string list \<times> pydict" where
  "patch_session env session_id developer_id data =
     (queries env session_id developer_id data,
      [(''session_update_vals'', session_update_vals data),
       (''session_id'', PStr (str_uuid session_id)),
       (''developer_id'', PStr (str_uuid developer_id)),
       (''metadata'', metadata_arg data)])"

text \<open>
  The columns that the statement names, read off the f-string: the head of the rule
  \<^verbatim>\<open>?[...]\<close> and the \<^verbatim>\<open>:put\<close> list both are \<^verbatim>\<open>{all_fields}, metadata, updated_at\<close>; the
  input relation has the columns of \<^verbatim>\<open>session_update_cols\<close>; the columns read from the
  stored row are those of \<^verbatim>\<open>rest_fields\<close>.
\<close>

definition put_columns :: "collaborators \<Rightarrow> pydict \<Rightarrow> string list" where
  "put_columns env data = all_fields_lst env data @ [''metadata'', ''updated_at'']"

section \<open>The decorators of \<^verbatim>\<open>patch_session\<close>\<close>

text \<open>
  The transform that \<^verbatim>\<open>wrap_in_class\<close> is given (lines 47 to 52). The items of the display
  are evaluated from left to right: \<^verbatim>\<open>d["session_id"]\<close> first, then the pop of
  \<^verbatim>\<open>updated_at\<close> and its element 0, and \<^verbatim>\<open>**d\<close> reads \<open>d\<close> after the pop.
\<close>

definition transform :: "pydict \<Rightarrow> exn + pydict" where
  "transform d =
     (case map_of d ''session_id'' of
        None \<Rightarrow> Inl (KeyError, ''session_id'')
      | Some sid \<Rightarrow>
          (case map_of d ''updated_at'' of
             None \<Rightarrow> Inl (KeyError, ''updated_at'')
           | Some u \<Rightarrow>
               (case subscript0 u of
                  Inl e \<Rightarrow> Inl e
                | Inr t \<Rightarrow>
                    Inr (dict_display
                          ([(''id'', sid), (''updated_at'', t), (''jobs'', PList [])]
                           @ pop_rest ''updated_at'' d)))))"

text \<open>
  The mapping that \<^verbatim>\<open>rewrap_exceptions\<close> is given (lines 38 to 42):
  \<^verbatim>\<open>partialclass(HTTPException, status_code=400)\<close> is the class of the HTTP errors whose
  status code is 400.
\<close>

datatype api_error = HTTPException nat

definition exception_mapping :: "(exn_class \<times> api_error) list" where
  "exception_mapping =
     [(QueryException, HTTPException 400),
      (ValidationError, HTTPException 400),
      (TypeError, HTTPException 400)]"

text \<open>
  Modelled from the spec: the decorator \<^verbatim>\<open>rewrap_exceptions\<close> (\<^verbatim>\<open>models/utils.py\<close> is not
  among the sources), the ExceptionTranslator of sections 4.4 and 7. The kind InvalidRequest
  is the HTTP error 400. A failure whose class the mapping names is surfaced as the error
  that the mapping gives for it; "all other translator outcomes are treated as a single
  flat bad request class"; a result is passed on as it is. The wrapped function is called
  once.
\<close>

definition InvalidRequest :: api_error where
  "InvalidRequest = HTTPException 400"

definition translate :: "(exn_class \<times> api_error) list \<Rightarrow> exn \<Rightarrow> api_error" where
  "translate mapping e =
     (case map_of mapping (fst e) of None \<Rightarrow> InvalidRequest | Some a \<Rightarrow> a)"

definition rewrap_exceptions ::
  "(exn_class \<times> api_error) list \<Rightarrow> ('a \<Rightarrow> exn + 'b) \<Rightarrow> 'a \<Rightarrow> api_error + 'b" where
  "rewrap_exceptions mapping f x =
     (case f x of Inl e \<Rightarrow> Inl (translate mapping e) | Inr y \<Rightarrow> Inr y)"

section \<open>The store\<close>

text \<open>
  Modelled from the spec: the store interface \<^verbatim>\<open>runTransaction\<close> of sections 5 and 6 (the
  decorator \<^verbatim>\<open>cozo_query\<close>, which hands the statements to the store, is in
  \<^verbatim>\<open>models/utils.py\<close>, not among the sources). The statements run in the order of the
  list, each on the store its predecessor left. When one fails the sequence is rolled
  back: the failure is the result and the store is the one before the transaction.
\<close>

fun run_statements :: "(string \<Rightarrow> 's \<Rightarrow> 'e + 's) \<Rightarrow> string list \<Rightarrow> 's \<Rightarrow> 'e + 's" where
  "run_statements exec [] s = Inr s"
| "run_statements exec (q # qs) s =
     (case exec q s of Inl e \<Rightarrow> Inl e | Inr s' \<Rightarrow> run_statements exec qs s')"

definition runTransaction ::
  "(string \<Rightarrow> 's \<Rightarrow> 'e + 's) \<Rightarrow> string list \<Rightarrow> 's \<Rightarrow> 'e option \<times> 's" where
  "runTransaction exec qs s =
     (case run_statements exec qs s of Inl e \<Rightarrow> (Some e, s) | Inr s' \<Rightarrow> (None, s'))"

text \<open>
  Modelled from the spec: the store's \<^verbatim>\<open>concat\<close> of two metadata maps (the statement only
  names it; the store evaluates it). Section 4.2: "associative union; a key present in both
  old and new uses the new value; keys only in old are preserved; keys only in new are
  added". As a dictionary that is \<^verbatim>\<open>{**old, **new}\<close>.
\<close>

definition concat_metadata :: "pydict \<Rightarrow> pydict \<Rightarrow> pydict" where
  "concat_metadata old new = dict_display (old @ new)"

text \<open>
  Modelled from the spec: how the store reads the mutation statement (there is no source of
  the store). It reads the statement by lines. The line that follows \<^verbatim>\<open>:put sessions {\<close>
  lists the columns of the new row, separated by a comma and a space; a statement without
  that list, or with an empty column name in it, is rejected (section 4.4: the store
  rejects the compiled statement for its syntax). The column \<^verbatim>\<open>metadata\<close> of the new row is
  what the rule line \<^verbatim>\<open>metadata = concat(md, $metadata),\<close> computes, where \<open>md\<close> is the
  metadata of the current version and \<^verbatim>\<open>$metadata\<close> is looked up in the bound parameters; a
  statement without that line has no value for the column. The store rejects what is not
  a map.
\<close>

fun split_on :: "char \<Rightarrow> string \<Rightarrow> string list" where
  "split_on sep [] = [[]]"
| "split_on sep (c # cs) =
     (if c = sep then [] # split_on sep cs
      else (case split_on sep cs of [] \<Rightarrow> [[c]] | w # ws \<Rightarrow> (c # w) # ws))"

fun split_comma_space :: "string \<Rightarrow> string list" where
  "split_comma_space [] = [[]]"
| "split_comma_space [c] = [[c]]"
| "split_comma_space (c # d # ds) =
     (if c = CHR '','' \<and> d = CHR '' '' then [] # split_comma_space ds
      else (case split_comma_space (d # ds) of [] \<Rightarrow> [[c]] | w # ws \<Rightarrow> (c # w) # ws))"

fun line_after :: "string \<Rightarrow> string list \<Rightarrow> string option" where
  "line_after h [] = None"
| "line_after h [l] = None"
| "line_after h (l # l' # ls) = (if l = h then Some l' else line_after h (l' # ls))"

definition statement_lines :: "string \<Rightarrow> string list" where
  "statement_lines stmt = split_on (CHR 0x0A) stmt"

definition put_list :: "string \<Rightarrow> string list option" where
  "put_list stmt =
     map_option (\<lambda>l. split_comma_space (dropWhile (\<lambda>c. c = CHR '' '') l))
       (line_after ''        :put sessions {'' (statement_lines stmt))"

definition new_version_metadata :: "pydict \<Rightarrow> string \<Rightarrow> pydict \<Rightarrow> exn + pydict" where
  "new_version_metadata md stmt params =
     (case put_list stmt of
        None \<Rightarrow> Inl (QueryException, ''no :put list'')
      | Some cols \<Rightarrow>
          if [] \<in> set cols then Inl (QueryException, ''empty column name'')
          else if ''metadata'' \<in> set cols \<and>
                  ''            metadata = concat(md, $metadata),'' \<in> set (statement_lines stmt)
          then (case map_of params ''metadata'' of
                  Some (PDict new) \<Rightarrow> Inr (concat_metadata md new)
                | _ \<Rightarrow> Inl (QueryException, ''metadata is not a map''))
          else Inl (QueryException, ''no rule for metadata''))"

text \<open>
  The names that a request can give its fields are Python identifiers: not empty, and
  without comma, space or line break.
\<close>

definition plain_name :: "string \<Rightarrow> bool" where
  "plain_name k = (CHR '','' \<notin> set k \<and> CHR '' '' \<notin> set k \<and> CHR 0x0A \<notin> set k)"

definition field_name :: "string \<Rightarrow> bool" where
  "field_name k = (k \<noteq> [] \<and> plain_name k)"

text \<open>A store that counts its versions, and fails on one given statement.\<close>

definition sample_exec :: "string \<Rightarrow> string \<Rightarrow> nat \<Rightarrow> string + nat" where
  "sample_exec bad q s = (if q = bad then Inl ''no rows'' else Inr (Suc s))"

section \<open>Properties\<close>

subsection \<open>Dictionaries\<close>

lemma map_of_foldl_update:
  "map_of (foldl (\<lambda>acc kv. AList.update (fst kv) (snd kv) acc) acc items) k =
     (case map_of (rev items) k of None \<Rightarrow> map_of acc k | Some v \<Rightarrow> Some v)"
proof (induction items arbitrary: acc)
  case Nil
  show ?case by simp
next
  case (Cons kv items)
  show ?case
    by (cases kv) (auto simp: Cons.IH update_conv' map_add_def split: option.splits)
qed

lemma map_of_rev_distinct:
  "distinct (map fst xs) \<Longrightarrow> map_of (rev xs) k = map_of xs k"
proof (induction xs)
  case Nil
  show ?case by simp
next
  case (Cons x xs)
  have ih: "map_of (rev xs) k = map_of xs k"
    using Cons by simp
  show ?case
  proof (cases "k = fst x")
    case True
    then have "map_of xs k = None"
      using Cons.prems by (simp add: map_of_eq_None_iff)
    then show ?thesis
      using True ih by (simp add: map_add_def)
  next
    case False
    then show ?thesis
      using ih by (simp add: map_add_def split: option.splits)
  qed
qed

lemma map_of_dict_display:
  "map_of (dict_display items) k = map_of (rev items) k"
  by (simp add: dict_display_def map_of_foldl_update split: option.splits)

lemma keys_foldl_update:
  "fst ` set (foldl (\<lambda>acc kv. AList.update (fst kv) (snd kv) acc) acc items) =
     fst ` set acc \<union> fst ` set items"
  by (induction items arbitrary: acc) (auto simp: dom_update image_iff)

lemma keys_dict_display: "fst ` set (dict_display items) = fst ` set items"
  by (simp add: dict_display_def keys_foldl_update)

lemma map_of_pop_rest:
  "map_of (pop_rest k d) k' = (if k' = k then None else map_of d k')"
  by (induction d) (auto simp: pop_rest_def)

lemma keys_pop_rest: "fst ` set (pop_rest k d) = fst ` set d - {k}"
  by (auto simp: pop_rest_def)


lemma pop_rest_distinct: "distinct (map fst d) \<Longrightarrow> distinct (map fst (pop_rest k d))"
  by (simp add: pop_rest_def distinct_map_filter)

lemma map_of_transform_items:
  assumes "distinct (map fst d)"
  shows "map_of (dict_display ((''id'', sid) # (''updated_at'', t) # (''jobs'', j)
                 # pop_rest ''updated_at'' d)) k =
     (if k = ''updated_at'' then Some t
      else case map_of d k of
             Some v \<Rightarrow> Some v
           | None \<Rightarrow> if k = ''id'' then Some sid else if k = ''jobs'' then Some j else None)"
  using assms
  by (simp add: map_of_dict_display map_of_rev_distinct pop_rest_distinct map_add_def
        map_of_pop_rest split: option.splits)

subsection \<open>Strings and the statement text\<close>

lemma sublist_concat: "m \<in> set xss \<Longrightarrow> sublist m (concat xss)"
proof -
  assume "m \<in> set xss"
  then obtain as bs where "xss = as @ m # bs"
    by (auto dest: split_list)
  then have "concat xss = concat as @ m @ concat bs"
    by simp
  then show ?thesis
    by simp
qed


lemma split_comma_nonempty: "split_comma s \<noteq> []"
  by (induction s) (auto split: list.splits)

lemma split_comma_no_comma: "CHR '','' \<notin> set s \<Longrightarrow> split_comma s = [s]"
  by (induction s) auto

lemma split_comma_append:
  "CHR '','' \<notin> set a \<Longrightarrow> split_comma (a @ CHR '','' # r) = a # split_comma r"
  by (induction a) auto

lemma split_comma_join:
  assumes "ks \<noteq> []" and "\<forall>k \<in> set ks. CHR '','' \<notin> set k"
  shows "split_comma (join '','' ks) = ks"
  using assms
proof (induction ks)
  case Nil
  then show ?case by simp
next
  case (Cons k ks)
  show ?case
  proof (cases ks)
    case Nil
    then show ?thesis using Cons.prems by (simp add: split_comma_no_comma)
  next
    case (Cons y ys)
    then have "split_comma (join '','' ks) = ks"
      using Cons.IH Cons.prems by simp
    then show ?thesis
      using Cons Cons.prems by (simp add: split_comma_append)
  qed
qed

lemma session_update_cols_lst_empty:
  "supplied data = [] \<Longrightarrow> session_update_cols_lst data = [[]]"
  by (simp add: session_update_cols_lst_def session_update_cols_def cozo_process_mutate_data_def)

lemma session_update_cols_lst_keys:
  assumes "supplied data \<noteq> []" and "\<forall>k \<in> fst ` set data. CHR '','' \<notin> set k"
  shows "session_update_cols_lst data = map fst (supplied data)"
proof -
  have "\<forall>k \<in> set (map fst (supplied data)). CHR '','' \<notin> set k"
    using assms(2) by (auto simp: supplied_def pop_rest_def)
  then show ?thesis
    using assms(1)
    by (simp add: session_update_cols_lst_def session_update_cols_def
          cozo_process_mutate_data_def split_comma_join)
qed

lemma enumerates_sorted: "enumerates sorted_list_of_set"
  by (simp add: enumerates_def)

lemma enumerates_sample_env: "enumerates (list_of_set sample_env)"
  by (simp add: sample_env_def enumerates_sorted)

lemma set_all_fields_lst:
  "enumerates (list_of_set env) \<Longrightarrow>
     set (all_fields_lst env data) = set (session_update_cols_lst data) \<union> set fields"
  by (simp add: all_fields_lst_def enumerates_def)

lemma set_rest_fields_lst:
  "enumerates (list_of_set env) \<Longrightarrow>
     set (rest_fields_lst env data) =
       (set (session_update_cols_lst data) \<union> set fields) - fst ` set (supplied data)"
  by (simp add: rest_fields_lst_def set_all_fields_lst enumerates_def)

lemma supplied_null: "supplied (xs @ (f, PNone) # ys) = supplied (xs @ ys)"
  by (simp add: supplied_def pop_rest_def)

lemma keys_supplied: "fst ` set (supplied data) \<subseteq> fst ` set data - {''metadata''}"
  by (auto simp: supplied_def pop_rest_def)

lemma metadata_arg_null:
  assumes "f \<notin> fst ` set (xs @ ys)"
  shows "metadata_arg (xs @ (f, PNone) # ys) = metadata_arg (xs @ ys)"
proof (cases "f = ''metadata''")
  case True
  have "map_of xs f = None" and "map_of ys f = None"
    using assms by (auto simp: map_of_eq_None_iff)
  then show ?thesis
    using True by (simp add: metadata_arg_def pop_value_def py_or_def map_add_def)
next
  case False
  then show ?thesis
    by (simp add: metadata_arg_def pop_value_def map_add_def split: option.splits)
qed

lemma queries_cong:
  "map fst (supplied d1) = map fst (supplied d2) \<Longrightarrow>
     queries env s d d1 = queries env s d d2"
  by (simp add: queries_def session_update_cols_def all_fields_def all_fields_lst_def
        rest_fields_def rest_fields_lst_def session_update_cols_lst_def
        cozo_process_mutate_data_def)

lemma patch_session_cong:
  assumes "supplied d1 = supplied d2" and "metadata_arg d1 = metadata_arg d2"
  shows "patch_session env s d d1 = patch_session env s d d2"
proof -
  have "queries env s d d1 = queries env s d d2"
    by (rule queries_cong) (simp add: assms(1))
  then show ?thesis
    by (simp add: patch_session_def session_update_vals_def assms)
qed

subsection \<open>The metadata argument and the supplied columns\<close>

lemma update_fresh: "k \<notin> fst ` set al \<Longrightarrow> AList.update k v al = al @ [(k, v)]"
  by (induction al) auto

lemma foldl_update_fresh:
  "distinct (map fst (acc @ xs)) \<Longrightarrow>
     foldl (\<lambda>acc kv. AList.update (fst kv) (snd kv) acc) acc xs = acc @ xs"
proof (induction xs arbitrary: acc)
  case Nil
  show ?case by simp
next
  case (Cons x xs)
  have fresh: "fst x \<notin> fst ` set acc"
    using Cons.prems by auto
  have "distinct (map fst ((acc @ [x]) @ xs))"
    using Cons.prems by simp
  then have "foldl (\<lambda>acc kv. AList.update (fst kv) (snd kv) acc) (acc @ [x]) xs = (acc @ [x]) @ xs"
    by (rule Cons.IH)
  then show ?case
    using fresh by (simp add: update_fresh)
qed

lemma dict_display_distinct: "distinct (map fst xs) \<Longrightarrow> dict_display xs = xs"
  using foldl_update_fresh [of "[]" xs] by (simp add: dict_display_def)

lemma concat_metadata_empty: "distinct (map fst md) \<Longrightarrow> concat_metadata md [] = md"
  by (simp add: concat_metadata_def dict_display_distinct)

lemma metadata_arg_absent:
  "map_of data ''metadata'' = None \<or> map_of data ''metadata'' = Some PNone \<Longrightarrow>
     metadata_arg data = PDict []"
  by (auto simp: metadata_arg_def pop_value_def py_or_def)

lemma metadata_arg_truthy:
  "map_of data ''metadata'' = Some m \<Longrightarrow> truthy m \<Longrightarrow> metadata_arg data = m"
  by (simp add: metadata_arg_def pop_value_def py_or_def)

lemma session_update_vals_row:
  "session_update_vals data = PList [PList (map snd (supplied data))]"
  by (simp add: session_update_vals_def cozo_process_mutate_data_def)

lemma column_not_in_cols_lst:
  assumes "c \<noteq> []" and "c \<notin> fst ` set (supplied data)"
    and "\<forall>k \<in> fst ` set data. CHR '','' \<notin> set k"
  shows "c \<notin> set (session_update_cols_lst data)"
proof (cases "supplied data = []")
  case True
  then show ?thesis
    using assms(1) by (simp add: session_update_cols_lst_empty)
next
  case False
  then show ?thesis
    using assms(2,3) by (simp add: session_update_cols_lst_keys)
qed

subsection \<open>The columns of the statement\<close>

text \<open>
  When the request supplies at least one field beside the metadata, the columns of the
  new row are the supplied ones, those of \<^verbatim>\<open>_fields\<close>, \<^verbatim>\<open>metadata\<close> and \<^verbatim>\<open>updated_at\<close>;
  the columns read from the current version are those of \<^verbatim>\<open>_fields\<close> that are not
  supplied. When it supplies none, \<^verbatim>\<open>"".split(",")\<close> is \<^verbatim>\<open>[""]\<close>, and the empty name is a
  column of the input relation, of the new row and of the current version.
\<close>

lemma empty_not_in_fields: "[] \<notin> set fields"
  by (simp add: fields_def)

lemma set_put_columns:
  "enumerates (list_of_set env) \<Longrightarrow>
     set (put_columns env data) =
       set (session_update_cols_lst data) \<union> set fields \<union> {''metadata'', ''updated_at''}"
  by (auto simp: put_columns_def set_all_fields_lst)

lemma put_columns_of_supplied:
  assumes "enumerates (list_of_set env)" and "supplied data \<noteq> []"
    and "\<forall>k \<in> fst ` set data. CHR '','' \<notin> set k"
  shows "set (put_columns env data) =
           fst ` set (supplied data) \<union> set fields \<union> {''metadata'', ''updated_at''}"
    and "set (rest_fields_lst env data) = set fields - fst ` set (supplied data)"
    and "fst ` set (supplied data) \<inter> set (rest_fields_lst env data) = {}"
    and "fst ` set (supplied data) \<union> set (rest_fields_lst env data) = set (all_fields_lst env data)"
proof -
  have cols: "set (session_update_cols_lst data) = fst ` set (supplied data)"
    using assms(2,3) by (simp add: session_update_cols_lst_keys)
  show "set (put_columns env data) =
           fst ` set (supplied data) \<union> set fields \<union> {''metadata'', ''updated_at''}"
    using assms(1) cols by (simp add: set_put_columns)
  show r: "set (rest_fields_lst env data) = set fields - fst ` set (supplied data)"
    using assms(1) cols by (auto simp: set_rest_fields_lst)
  show "fst ` set (supplied data) \<inter> set (rest_fields_lst env data) = {}"
    using r by auto
  show "fst ` set (supplied data) \<union> set (rest_fields_lst env data) = set (all_fields_lst env data)"
    using assms(1) cols r by (auto simp: set_all_fields_lst)
qed

lemma columns_of_empty_supplied:
  assumes "enumerates (list_of_set env)" and "supplied data = []"
  shows "set (put_columns env data) = insert [] (set fields \<union> {''metadata'', ''updated_at''})"
    and "set (rest_fields_lst env data) = insert [] (set fields)"
    and "set (session_update_cols_lst data) = {[]}"
proof -
  show c: "set (session_update_cols_lst data) = {[]}"
    using assms(2) by (simp add: session_update_cols_lst_empty)
  show "set (put_columns env data) = insert [] (set fields \<union> {''metadata'', ''updated_at''})"
    using assms(1) c by (auto simp: set_put_columns)
  show "set (rest_fields_lst env data) = insert [] (set fields)"
    using assms c by (auto simp: set_rest_fields_lst)
qed

lemma supplied_metadata_only: "supplied [(''metadata'', m)] = []"
  by (simp add: supplied_def pop_rest_def)

subsection \<open>How the store reads the statement\<close>

lemma split_on_append:
  "sep \<notin> set a \<Longrightarrow> split_on sep (a @ sep # r) = a # split_on sep r"
  by (induction a) auto

lemma split_on_no_sep: "sep \<notin> set s \<Longrightarrow> split_on sep s = [s]"
  by (induction s) auto

lemma split_on_join:
  assumes "ls \<noteq> []" and "\<forall>l \<in> set ls. sep \<notin> set l"
  shows "split_on sep (join [sep] ls) = ls"
  using assms
proof (induction ls)
  case Nil
  then show ?case by simp
next
  case (Cons l ls)
  show ?case
  proof (cases ls)
    case Nil
    then show ?thesis using Cons.prems by (simp add: split_on_no_sep)
  next
    case (Cons y ys)
    then have "split_on sep (join [sep] ls) = ls"
      using Cons.IH Cons.prems by simp
    then show ?thesis
      using Cons Cons.prems by (simp add: split_on_append)
  qed
qed

lemma split_comma_space_no_comma:
  "CHR '','' \<notin> set s \<Longrightarrow> split_comma_space s = [s]"
  by (induction s rule: split_comma_space.induct) auto

lemma split_comma_space_append:
  "CHR '','' \<notin> set a \<Longrightarrow>
     split_comma_space (a @ CHR '','' # CHR '' '' # r) = a # split_comma_space r"
proof (induction a)
  case Nil
  show ?case by simp
next
  case (Cons c a)
  then have ih: "split_comma_space (a @ CHR '','' # CHR '' '' # r) = a # split_comma_space r"
    by simp
  obtain d ds where tl: "a @ CHR '','' # CHR '' '' # r = d # ds"
    by (cases a) auto
  have "split_comma_space (c # d # ds) = (c # a) # split_comma_space r"
    using Cons.prems ih tl by auto
  then show ?case using tl by simp
qed

lemma split_comma_space_join:
  assumes "ks \<noteq> []" and "\<forall>k \<in> set ks. CHR '','' \<notin> set k"
  shows "split_comma_space (join '', '' ks) = ks"
  using assms
proof (induction ks)
  case Nil
  then show ?case by simp
next
  case (Cons k ks)
  show ?case
  proof (cases ks)
    case Nil
    then show ?thesis using Cons.prems by (simp add: split_comma_space_no_comma)
  next
    case (Cons y ys)
    then have "split_comma_space (join '', '' ks) = ks"
      using Cons.IH Cons.prems by simp
    then show ?thesis
      using Cons Cons.prems by (simp add: split_comma_space_append)
  qed
qed

lemma join_append:
  "xs \<noteq> [] \<Longrightarrow> ys \<noteq> [] \<Longrightarrow> join sep (xs @ ys) = join sep xs @ sep @ join sep ys"
proof (induction xs)
  case Nil
  then show ?case by simp
next
  case (Cons x xs)
  show ?case
  proof (cases xs)
    case Nil
    then show ?thesis using Cons.prems by (cases ys) simp_all
  next
    case (Cons z zs)
    then show ?thesis using Cons.IH Cons.prems by simp
  qed
qed

lemma set_join: "set (join sep xs) \<subseteq> set sep \<union> \<Union> (set ` set xs)"
  by (induction sep xs rule: join.induct) auto

lemma join_no_char:
  "c \<notin> set sep \<Longrightarrow> \<forall>x \<in> set xs. c \<notin> set x \<Longrightarrow> c \<notin> set (join sep xs)"
  using set_join [of sep xs] by auto

lemma join_starts_space:
  assumes "\<forall>x \<in> set xs. CHR '' '' \<notin> set x"
  shows "join '', '' xs = [] \<or> hd (join '', '' xs) \<noteq> CHR '' ''"
proof (cases xs)
  case Nil
  then show ?thesis by simp
next
  case (Cons x ys)
  then have x: "CHR '' '' \<notin> set x"
    using assms by simp
  show ?thesis
  proof (cases ys)
    case Nil
    then show ?thesis using Cons x by (cases x) auto
  next
    case (Cons y zs)
    then show ?thesis using \<open>xs = x # ys\<close> x by (cases x) auto
  qed
qed

lemma dropWhile_spaces:
  "xs = [] \<or> hd xs \<noteq> CHR '' '' \<Longrightarrow>
     dropWhile (\<lambda>c. c = CHR '' '') (xs @ CHR '','' # ys) = xs @ CHR '','' # ys"
  by (cases xs) auto

lemma update_query_by_lines:
  \<open>update_query cols all rest = join [CHR 0x0A]
     ['''',
      ''        input['' @ cols @ ''] <- $session_update_vals'',
      ''        ids[session_id, developer_id] <- [[to_uuid($session_id), to_uuid($developer_id)]]'',
      ''        '',
      ''        ?['' @ all @ '', metadata, updated_at] :='',
      ''            input['' @ cols @ ''],'',
      ''            ids[session_id, developer_id],'',
      ''            *sessions{'',
      ''                '' @ rest @ '', metadata: md, @ "END"'',
      ''            },'',
      ''            updated_at = 'ASSERT','',
      ''            metadata = concat(md, $metadata),'',
      '''',
      ''        :put sessions {'',
      ''            '' @ all @ '', metadata, updated_at'',
      ''        }'',
      '''',
      ''        :returning'',
      ''    '']\<close>
  by (simp add: update_query_def)

lemma statement_lines_update_query:
  assumes "CHR 0x0A \<notin> set cols" and "CHR 0x0A \<notin> set all" and "CHR 0x0A \<notin> set rest"
  shows \<open>statement_lines (update_query cols all rest) =
     ['''',
      ''        input['' @ cols @ ''] <- $session_update_vals'',
      ''        ids[session_id, developer_id] <- [[to_uuid($session_id), to_uuid($developer_id)]]'',
      ''        '',
      ''        ?['' @ all @ '', metadata, updated_at] :='',
      ''            input['' @ cols @ ''],'',
      ''            ids[session_id, developer_id],'',
      ''            *sessions{'',
      ''                '' @ rest @ '', metadata: md, @ "END"'',
      ''            },'',
      ''            updated_at = 'ASSERT','',
      ''            metadata = concat(md, $metadata),'',
      '''',
      ''        :put sessions {'',
      ''            '' @ all @ '', metadata, updated_at'',
      ''        }'',
      '''',
      ''        :returning'',
      ''    '']\<close>
  unfolding statement_lines_def update_query_by_lines
  by (rule split_on_join) (use assms in simp_all)

lemma put_list_update_query:
  assumes "CHR 0x0A \<notin> set cols" and "CHR 0x0A \<notin> set all" and "CHR 0x0A \<notin> set rest"
    and "all = [] \<or> hd all \<noteq> CHR '' ''"
  shows "put_list (update_query cols all rest)
           = Some (split_comma_space (all @ '', metadata, updated_at''))"
proof -
  have "dropWhile (\<lambda>c. c = CHR '' '') (''            '' @ all @ '', metadata, updated_at'')
          = all @ '', metadata, updated_at''"
    using dropWhile_spaces [OF assms(4), of "'' metadata, updated_at''"] by simp
  then show ?thesis
    by (simp add: put_list_def statement_lines_update_query [OF assms(1,2,3)])
qed

lemma rule_line_update_query:
  assumes "CHR 0x0A \<notin> set cols" and "CHR 0x0A \<notin> set all" and "CHR 0x0A \<notin> set rest"
  shows "''            metadata = concat(md, $metadata),''
           \<in> set (statement_lines (update_query cols all rest))"
  by (simp add: statement_lines_update_query [OF assms])



lemma update_query_concat_line:
  "sublist ''metadata = concat(md, $metadata),'' (update_query cols all rest)"
  unfolding update_query_def by (rule sublist_concat) simp



lemma supplied_subset: "set (supplied data) \<subseteq> set data"
  by (auto simp: supplied_def pop_rest_def)

lemma supplied_keys_have:
  "\<forall>k \<in> fst ` set data. P k \<Longrightarrow> \<forall>k \<in> fst ` set (supplied data). P k"
  using supplied_subset [of data] by auto

lemma plain_fields: "\<forall>f \<in> set fields. plain_name f"
  by (simp add: fields_def plain_name_def)

lemma plain_cols_lst:
  assumes "\<forall>k \<in> fst ` set data. plain_name k"
  shows "\<forall>c \<in> set (session_update_cols_lst data). plain_name c"
proof (cases "supplied data = []")
  case True
  then show ?thesis
    by (simp add: session_update_cols_lst_empty plain_name_def)
next
  case False
  have "\<forall>k \<in> fst ` set data. CHR '','' \<notin> set k"
    using assms by (simp add: plain_name_def)
  then have "session_update_cols_lst data = map fst (supplied data)"
    using False by (simp add: session_update_cols_lst_keys)
  then show ?thesis
    using supplied_keys_have [OF assms] by simp
qed

lemma plain_all_fields_lst:
  assumes "enumerates (list_of_set env)" and "\<forall>k \<in> fst ` set data. plain_name k"
  shows "\<forall>c \<in> set (all_fields_lst env data). plain_name c"
proof
  fix c assume "c \<in> set (all_fields_lst env data)"
  then have "c \<in> set (session_update_cols_lst data) \<or> c \<in> set fields"
    by (simp add: set_all_fields_lst [OF assms(1)])
  then show "plain_name c"
    using plain_cols_lst [OF assms(2)] plain_fields by blast
qed

lemma plain_rest_fields_lst:
  assumes "enumerates (list_of_set env)" and "\<forall>k \<in> fst ` set data. plain_name k"
  shows "\<forall>c \<in> set (rest_fields_lst env data). plain_name c"
proof
  fix c assume "c \<in> set (rest_fields_lst env data)"
  then have "c \<in> set (session_update_cols_lst data) \<or> c \<in> set fields"
    by (simp add: set_rest_fields_lst [OF assms(1)])
  then show "plain_name c"
    using plain_cols_lst [OF assms(2)] plain_fields by blast
qed

lemma all_fields_lst_nonempty:
  assumes "enumerates (list_of_set env)"
  shows "all_fields_lst env data \<noteq> []"
proof
  assume "all_fields_lst env data = []"
  then have "set (all_fields_lst env data) = {}"
    by simp
  then show False
    by (simp add: set_all_fields_lst [OF assms] fields_def)
qed

lemma newline_free_cols:
  assumes "\<forall>k \<in> fst ` set data. plain_name k"
  shows "CHR 0x0A \<notin> set (session_update_cols data)"
proof -
  have "\<forall>k \<in> fst ` set data. CHR 0x0A \<notin> set k"
    using assms by (simp add: plain_name_def)
  then have "\<forall>k \<in> fst ` set (supplied data). CHR 0x0A \<notin> set k"
    by (rule supplied_keys_have)
  then have "\<forall>k \<in> set (map fst (supplied data)). CHR 0x0A \<notin> set k"
    by simp
  moreover have "CHR 0x0A \<notin> set '',''"
    by simp
  ultimately have "CHR 0x0A \<notin> set (join '','' (map fst (supplied data)))"
    by (rule join_no_char [rotated])
  then show ?thesis
    by (simp add: session_update_cols_def cozo_process_mutate_data_def)
qed

lemma put_list_patch_session:
  assumes "enumerates (list_of_set env)" and "\<forall>k \<in> fst ` set data. plain_name k"
  shows "put_list (last (fst (patch_session env session_id developer_id data)))
           = Some (put_columns env data)"
    and "''            metadata = concat(md, $metadata),''
           \<in> set (statement_lines (last (fst (patch_session env session_id developer_id data))))"
proof -
  note pa = plain_all_fields_lst [OF assms]
  note pr = plain_rest_fields_lst [OF assms]
  have n1: "CHR 0x0A \<notin> set (session_update_cols data)"
    using assms(2) by (rule newline_free_cols)
  have sep: "CHR 0x0A \<notin> set '', ''" "CHR '' '' \<notin> set '',''" "'', '' \<noteq> []"
    by simp_all
  have pa_nl: "\<forall>x \<in> set (all_fields_lst env data). CHR 0x0A \<notin> set x"
    and pa_sp: "\<forall>x \<in> set (all_fields_lst env data). CHR '' '' \<notin> set x"
    and pa_co: "\<forall>x \<in> set (all_fields_lst env data). CHR '','' \<notin> set x"
    using pa by (simp_all add: plain_name_def)
  have pr_nl: "\<forall>x \<in> set (rest_fields_lst env data). CHR 0x0A \<notin> set x"
    using pr by (simp add: plain_name_def)
  have n2: "CHR 0x0A \<notin> set (all_fields env data)"
    unfolding all_fields_def using sep(1) pa_nl by (rule join_no_char)
  have n3: "CHR 0x0A \<notin> set (rest_fields env data)"
    unfolding rest_fields_def using sep(1) pr_nl by (rule join_no_char)
  have h: "all_fields env data = [] \<or> hd (all_fields env data) \<noteq> CHR '' ''"
    unfolding all_fields_def by (rule join_starts_space [OF pa_sp])
  have stmt: "last (fst (patch_session env session_id developer_id data))
      = update_query (session_update_cols data) (all_fields env data) (rest_fields env data)"
    by (simp add: patch_session_def queries_def)
  have "all_fields env data @ '', metadata, updated_at''
          = join '', '' (put_columns env data)"
    using all_fields_lst_nonempty [OF assms(1), of data]
    by (simp add: all_fields_def put_columns_def join_append)
  moreover have "split_comma_space (join '', '' (put_columns env data)) = put_columns env data"
  proof (rule split_comma_space_join)
    show "put_columns env data \<noteq> []"
      by (simp add: put_columns_def)
    show "\<forall>k \<in> set (put_columns env data). CHR '','' \<notin> set k"
      using pa_co by (simp add: put_columns_def)
  qed
  ultimately show "put_list (last (fst (patch_session env session_id developer_id data)))
           = Some (put_columns env data)"
    by (simp add: stmt put_list_update_query [OF n1 n2 n3 h])
  show "''            metadata = concat(md, $metadata),''
           \<in> set (statement_lines (last (fst (patch_session env session_id developer_id data))))"
    unfolding stmt by (rule rule_line_update_query [OF n1 n2 n3])
qed

lemma new_version_metadata_patch_session:
  assumes "enumerates (list_of_set env)" and "\<forall>k \<in> fst ` set data. plain_name k"
  shows "new_version_metadata md (last (fst (patch_session env session_id developer_id data)))
           (snd (patch_session env session_id developer_id data))
         = (if [] \<in> set (put_columns env data) then Inl (QueryException, ''empty column name'')
            else (case metadata_arg data of
                    PDict new \<Rightarrow> Inr (concat_metadata md new)
                  | _ \<Rightarrow> Inl (QueryException, ''metadata is not a map'')))"
proof -
  have p: "map_of (snd (patch_session env session_id developer_id data)) ''metadata''
             = Some (metadata_arg data)"
    by (simp add: patch_session_def)
  have m: "''metadata'' \<in> set (put_columns env data)"
    by (simp add: put_columns_def)
  show ?thesis
    unfolding new_version_metadata_def put_list_patch_session(1) [OF assms]
    using put_list_patch_session(2) [OF assms, of session_id developer_id] p m
    by (simp split: pyval.splits)
qed

lemma no_empty_column:
  assumes "enumerates (list_of_set env)" and "supplied data \<noteq> []"
    and "\<forall>k \<in> fst ` set data. field_name k"
  shows "[] \<notin> set (put_columns env data)"
proof -
  have c: "\<forall>k \<in> fst ` set data. CHR '','' \<notin> set k"
    using assms(3) by (simp add: field_name_def plain_name_def)
  have "\<forall>k \<in> fst ` set data. k \<noteq> []"
    using assms(3) by (simp add: field_name_def)
  then have "\<forall>k \<in> fst ` set (supplied data). k \<noteq> []"
    by (rule supplied_keys_have)
  then have "[] \<notin> fst ` set (supplied data)"
    by blast
  then show ?thesis
    unfolding put_columns_of_supplied(1) [OF assms(1,2) c]
    by (simp add: empty_not_in_fields)
qed

text \<open>
  A request that supplies no field beside the metadata has the empty column name in its
  \<^verbatim>\<open>:put\<close> list: the store rejects its statement, and no new version is written.
\<close>

lemma metadata_only_rejected:
  assumes "enumerates (list_of_set env)" and "\<forall>k \<in> fst ` set data. plain_name k"
    and "supplied data = []"
  shows "new_version_metadata md (last (fst (patch_session env session_id developer_id data)))
           (snd (patch_session env session_id developer_id data))
         = Inl (QueryException, ''empty column name'')"
  unfolding new_version_metadata_patch_session [OF assms(1,2)]
  using columns_of_empty_supplied(1) [OF assms(1,3)] by simp

subsection \<open>Order of the statements\<close>

text \<open>
  Claim C5. For every call, the list of statements that \<^verbatim>\<open>patch_session\<close> returns is the
  check that the developer exists, then the check that the developer owns the session,
  then the mutation, and nothing else. Run as one transaction, a failure of either check
  ends the transaction with that failure and leaves the store as it was; the mutation runs
  only on the store that both checks have passed.
\<close>

theorem checks_precede_mutation:
  fixes exec :: "string \<Rightarrow> 's \<Rightarrow> 'e + 's"
  shows
  "(let qs = fst (patch_session env session_id developer_id data);
        check1 = verify_developer_id_query env developer_id;
        check2 = verify_developer_owns_resource_query env developer_id ''sessions''
                   [(''session_id'', session_id)];
        mutation = update_query (session_update_cols data) (all_fields env data)
                     (rest_fields env data)
    in qs = [check1, check2, mutation] \<and>
       (\<forall>e. exec check1 s = Inl e \<longrightarrow> runTransaction exec qs s = (Some e, s)) \<and>
       (\<forall>s1 e. exec check1 s = Inr s1 \<and> exec check2 s1 = Inl e \<longrightarrow>
                runTransaction exec qs s = (Some e, s)) \<and>
       (\<forall>s1 s2. exec check1 s = Inr s1 \<and> exec check2 s1 = Inr s2 \<longrightarrow>
                runTransaction exec qs s =
                  (case exec mutation s2 of Inl e \<Rightarrow> (Some e, s) | Inr s3 \<Rightarrow> (None, s3))))"
  by (simp add: patch_session_def queries_def runTransaction_def Let_def split: sum.splits)

theorem checks_precede_mutation_witness:
  "sample_exec ''developer d1'' (verify_developer_id_query sample_env (UUID ''d1'')) 0 = Inl ''no rows'' \<and>
   runTransaction (sample_exec ''developer d1'')
     (fst (patch_session sample_env (UUID ''s1'') (UUID ''d1'') [(''situation'', PStr ''hi'')])) 0
     = (Some ''no rows'', 0) \<and>
   sample_exec ''owner d1 sessions s1'' (verify_developer_id_query sample_env (UUID ''d1'')) 0 = Inr 1 \<and>
   sample_exec ''owner d1 sessions s1''
     (verify_developer_owns_resource_query sample_env (UUID ''d1'') ''sessions'' [(''session_id'', UUID ''s1'')]) 1
     = Inl ''no rows'' \<and>
   runTransaction (sample_exec ''owner d1 sessions s1'')
     (fst (patch_session sample_env (UUID ''s1'') (UUID ''d1'') [(''situation'', PStr ''hi'')])) 0
     = (Some ''no rows'', 0)"
proof -
  have c1: "sample_exec ''developer d1'' (verify_developer_id_query sample_env (UUID ''d1'')) 0 = Inl ''no rows''"
    by (simp add: sample_exec_def sample_env_def)
  have c2: "sample_exec ''owner d1 sessions s1'' (verify_developer_id_query sample_env (UUID ''d1'')) 0 = Inr 1"
    by (simp add: sample_exec_def sample_env_def)
  have c3: "sample_exec ''owner d1 sessions s1''
     (verify_developer_owns_resource_query sample_env (UUID ''d1'') ''sessions'' [(''session_id'', UUID ''s1'')]) 1
     = Inl ''no rows''"
    by (simp add: sample_exec_def sample_env_def)
  note t1 = checks_precede_mutation [where exec = "sample_exec ''developer d1''" and env = sample_env
       and session_id = "UUID ''s1''" and developer_id = "UUID ''d1''"
       and data = "[(''situation'', PStr ''hi'')]" and s = 0]
  note t2 = checks_precede_mutation [where exec = "sample_exec ''owner d1 sessions s1''" and env = sample_env
       and session_id = "UUID ''s1''" and developer_id = "UUID ''d1''"
       and data = "[(''situation'', PStr ''hi'')]" and s = 0]
  from t1 c1 have r1: "runTransaction (sample_exec ''developer d1'')
     (fst (patch_session sample_env (UUID ''s1'') (UUID ''d1'') [(''situation'', PStr ''hi'')])) 0
     = (Some ''no rows'', 0)"
    unfolding Let_def by blast
  from t2 c2 c3 have r2: "runTransaction (sample_exec ''owner d1 sessions s1'')
     (fst (patch_session sample_env (UUID ''s1'') (UUID ''d1'') [(''situation'', PStr ''hi'')])) 0
     = (Some ''no rows'', 0)"
    unfolding Let_def by blast
  show ?thesis using c1 c2 c3 r1 r2 by blast
qed

subsection \<open>The transform of the result row\<close>

text \<open>
  Claim C7. A row of the store has distinct columns, among them \<^verbatim>\<open>session_id\<close> and
  \<^verbatim>\<open>updated_at\<close>, the latter a sequence with a first element, and no column named
  \<^verbatim>\<open>id\<close> or \<^verbatim>\<open>jobs\<close>. On every such row the transform returns a dictionary in which
  \<^verbatim>\<open>id\<close> is the value of the row's \<^verbatim>\<open>session_id\<close>, \<^verbatim>\<open>updated_at\<close> is the first element of
  the row's sequence (the single one of a one-element sequence) and not the sequence,
  \<^verbatim>\<open>jobs\<close> is present and is the empty list, and every other column has the value that the
  row gives it.
\<close>

theorem transform_projects_row:
  assumes "distinct (map fst d)"
    and "map_of d ''session_id'' = Some sid"
    and "map_of d ''updated_at'' = Some (PList (t # ts))"
    and "''id'' \<notin> fst ` set d" and "''jobs'' \<notin> fst ` set d"
  shows "\<exists>out. transform d = Inr out \<and>
           map_of out ''id'' = Some sid \<and>
           map_of out ''updated_at'' = Some t \<and>
           map_of out ''jobs'' = Some (PList []) \<and>
           (\<forall>k. k \<notin> {''id'', ''updated_at'', ''jobs''} \<longrightarrow> map_of out k = map_of d k)"
proof -
  let ?out = "dict_display ([(''id'', sid), (''updated_at'', t), (''jobs'', PList [])]
                 @ pop_rest ''updated_at'' d)"
  have run: "transform d = Inr ?out"
    using assms(2,3) by (simp add: transform_def)
  have noid: "map_of d ''id'' = None" and nojobs: "map_of d ''jobs'' = None"
    using assms(4,5) by (simp_all add: map_of_eq_None_iff)
  have "map_of ?out ''id'' = Some sid"
    using noid by (simp add: map_of_transform_items [OF assms(1)])
  moreover have "map_of ?out ''updated_at'' = Some t"
    by (simp add: map_of_transform_items [OF assms(1)])
  moreover have "map_of ?out ''jobs'' = Some (PList [])"
    using nojobs by (simp add: map_of_transform_items [OF assms(1)])
  moreover have "\<forall>k. k \<notin> {''id'', ''updated_at'', ''jobs''} \<longrightarrow> map_of ?out k = map_of d k"
    by (simp add: map_of_transform_items [OF assms(1)] split: option.splits)
  ultimately show ?thesis using run by blast
qed

theorem transform_projects_row_witness:
  "\<exists>out. transform [(''session_id'', PStr ''s1''), (''situation'', PStr ''hi''),
                     (''updated_at'', PList [PInt 1700])] = Inr out \<and>
         map_of out ''id'' = Some (PStr ''s1'') \<and>
         map_of out ''updated_at'' = Some (PInt 1700) \<and>
         map_of out ''jobs'' = Some (PList []) \<and>
         (\<forall>k. k \<notin> {''id'', ''updated_at'', ''jobs''} \<longrightarrow>
              map_of out k = map_of [(''session_id'', PStr ''s1''), (''situation'', PStr ''hi''),
                     (''updated_at'', PList [PInt 1700])] k)"
  by (rule transform_projects_row [where ts = "[]"]) simp_all

text \<open>
  Claim C10. On every row with distinct columns that has a \<^verbatim>\<open>session_id\<close>, an
  \<^verbatim>\<open>updated_at\<close> with a first element and no column \<^verbatim>\<open>id\<close>, the dictionary that the
  transform returns has both \<^verbatim>\<open>id\<close> and \<^verbatim>\<open>session_id\<close>, with the same value. Its keys are
  \<^verbatim>\<open>id\<close>, \<^verbatim>\<open>updated_at\<close>, \<^verbatim>\<open>jobs\<close> and all columns of the row: only \<^verbatim>\<open>updated_at\<close> was
  popped before the row was merged in, and the other columns keep their values.
\<close>

theorem transform_keeps_session_id:
  assumes "distinct (map fst d)"
    and "map_of d ''session_id'' = Some sid"
    and "map_of d ''updated_at'' = Some (PList (t # ts))"
    and "''id'' \<notin> fst ` set d"
  shows "\<exists>out. transform d = Inr out \<and>
           map_of out ''id'' = Some sid \<and>
           map_of out ''session_id'' = Some sid \<and>
           fst ` set out = {''id'', ''updated_at'', ''jobs''} \<union> (fst ` set d - {''updated_at''}) \<and>
           (\<forall>k \<in> fst ` set d - {''updated_at''}. map_of out k = map_of d k)"
proof -
  let ?out = "dict_display ([(''id'', sid), (''updated_at'', t), (''jobs'', PList [])]
                 @ pop_rest ''updated_at'' d)"
  have run: "transform d = Inr ?out"
    using assms(2,3) by (simp add: transform_def)
  have noid: "map_of d ''id'' = None"
    using assms(4) by (simp add: map_of_eq_None_iff)
  have "map_of ?out ''id'' = Some sid"
    using noid by (simp add: map_of_transform_items [OF assms(1)])
  moreover have "map_of ?out ''session_id'' = Some sid"
    using assms(2) by (simp add: map_of_transform_items [OF assms(1)])
  moreover have "fst ` set ?out = {''id'', ''updated_at'', ''jobs''} \<union> (fst ` set d - {''updated_at''})"
    by (simp add: keys_dict_display keys_pop_rest)
  moreover have "\<forall>k \<in> fst ` set d - {''updated_at''}. map_of ?out k = map_of d k"
  proof
    fix k assume k: "k \<in> fst ` set d - {''updated_at''}"
    then obtain v where "map_of d k = Some v"
      using assms(1) by (metis Diff_iff map_of_eq_None_iff not_Some_eq)
    then show "map_of ?out k = map_of d k"
      using k by (simp add: map_of_transform_items [OF assms(1)])
  qed
  ultimately show ?thesis using run by blast
qed

theorem transform_keeps_session_id_witness:
  "\<exists>out. transform [(''session_id'', PStr ''s1''), (''situation'', PStr ''hi''),
                     (''updated_at'', PList [PInt 1700])] = Inr out \<and>
         map_of out ''id'' = Some (PStr ''s1'') \<and>
         map_of out ''session_id'' = Some (PStr ''s1'') \<and>
         fst ` set out = {''id'', ''updated_at'', ''jobs'', ''session_id'', ''situation''}"
proof -
  let ?d = "[(''session_id'', PStr ''s1''), (''situation'', PStr ''hi''),
             (''updated_at'', PList [PInt 1700])]"
  have "\<exists>out. transform ?d = Inr out \<and>
           map_of out ''id'' = Some (PStr ''s1'') \<and>
           map_of out ''session_id'' = Some (PStr ''s1'') \<and>
           fst ` set out = {''id'', ''updated_at'', ''jobs''} \<union> (fst ` set ?d - {''updated_at''}) \<and>
           (\<forall>k \<in> fst ` set ?d - {''updated_at''}. map_of out k = map_of ?d k)"
    by (rule transform_keeps_session_id [where ts = "[]"]) simp_all
  moreover have "{''id'', ''updated_at'', ''jobs''} \<union> (fst ` set ?d - {''updated_at''})
      = {''id'', ''updated_at'', ''jobs'', ''session_id'', ''situation''}"
    by auto
  ultimately show ?thesis by metis
qed

subsection \<open>Failures\<close>

text \<open>
  Claim C6. The mapping of the source sends \<^verbatim>\<open>QueryException\<close>, \<^verbatim>\<open>ValidationError\<close> and
  \<^verbatim>\<open>TypeError\<close> each to the HTTP error 400, the kind InvalidRequest. Through the
  translator, every failure of the wrapped function is surfaced as a failure, of the kind
  InvalidRequest, never as a result; a result is passed on unchanged; the wrapped function
  is applied once to its argument.
\<close>

theorem failures_surface_as_invalid_request:
  fixes f :: "'a \<Rightarrow> exn + 'b"
  shows "map_of exception_mapping QueryException = Some InvalidRequest \<and>
         map_of exception_mapping ValidationError = Some InvalidRequest \<and>
         map_of exception_mapping TypeError = Some InvalidRequest \<and>
         (\<forall>e. f x = Inl e \<longrightarrow> rewrap_exceptions exception_mapping f x = Inl InvalidRequest) \<and>
         (\<forall>y. f x = Inr y \<longrightarrow> rewrap_exceptions exception_mapping f x = Inr y)"
proof -
  have "translate exception_mapping (c, msg) = InvalidRequest" for c msg
    by (cases c) (simp_all add: translate_def exception_mapping_def InvalidRequest_def)
  then show ?thesis
    by (auto simp: rewrap_exceptions_def exception_mapping_def InvalidRequest_def)
qed

theorem failures_surface_as_invalid_request_witness:
  "transform [(''situation'', PStr ''hi'')] = Inl (KeyError, ''session_id'') \<and>
   rewrap_exceptions exception_mapping transform [(''situation'', PStr ''hi'')] = Inl (HTTPException 400) \<and>
   rewrap_exceptions exception_mapping (\<lambda>u::unit. Inl (QueryException, ''rejected'') :: exn + unit) ()
     = Inl (HTTPException 400) \<and>
   rewrap_exceptions exception_mapping (\<lambda>u::unit. Inr (5::nat) :: exn + nat) () = Inr 5"
proof -
  have a: "transform [(''situation'', PStr ''hi'')] = Inl (KeyError, ''session_id'')"
    by (simp add: transform_def)
  have b: "(\<lambda>u::unit. Inl (QueryException, ''rejected'') :: exn + unit) () = Inl (QueryException, ''rejected'')"
    by simp
  have c: "(\<lambda>u::unit. Inr (5::nat) :: exn + nat) () = Inr 5"
    by simp
  show ?thesis
    using a b c
      failures_surface_as_invalid_request [of transform "[(''situation'', PStr ''hi'')]"]
      failures_surface_as_invalid_request [of "\<lambda>u::unit. Inl (QueryException, ''rejected'') :: exn + unit" "()"]
      failures_surface_as_invalid_request [of "\<lambda>u::unit. Inr (5::nat) :: exn + nat" "()"]
    by (simp add: InvalidRequest_def)
qed

subsection \<open>Metadata\<close>



subsection \<open>Null fields\<close>

text \<open>
  Claim C3. Let a request set the fields \<open>xs\<close> and \<open>ys\<close>, none of them named \<open>f\<close>. Setting
  \<open>f\<close> to null between them changes nothing: \<^verbatim>\<open>patch_session\<close> returns the same list of
  statements and the same bound parameters as for the request without \<open>f\<close>, and \<open>f\<close> is
  not among the columns handed over for overwriting.
\<close>

theorem null_field_same_as_absent:
  assumes "f \<notin> fst ` set (xs @ ys)"
  shows "patch_session env session_id developer_id (xs @ (f, PNone) # ys)
           = patch_session env session_id developer_id (xs @ ys) \<and>
         f \<notin> fst ` set (supplied (xs @ (f, PNone) # ys))"
proof
  show "patch_session env session_id developer_id (xs @ (f, PNone) # ys)
           = patch_session env session_id developer_id (xs @ ys)"
    by (rule patch_session_cong) (simp_all add: supplied_null metadata_arg_null [OF assms])
  show "f \<notin> fst ` set (supplied (xs @ (f, PNone) # ys))"
    using assms keys_supplied [of "xs @ ys"] by (auto simp: supplied_null)
qed

theorem null_field_same_as_absent_witness:
  "patch_session sample_env (UUID ''s1'') (UUID ''d1'')
      [(''situation'', PStr ''hi''), (''metadata'', PNone), (''summary'', PStr ''s'')]
     = patch_session sample_env (UUID ''s1'') (UUID ''d1'')
      [(''situation'', PStr ''hi''), (''summary'', PStr ''s'')] \<and>
   ''metadata'' \<notin> fst ` set (supplied
      [(''situation'', PStr ''hi''), (''metadata'', PNone), (''summary'', PStr ''s'')])"
  using null_field_same_as_absent [of "''metadata''" "[(''situation'', PStr ''hi'')]"
      "[(''summary'', PStr ''s'')]" sample_env "UUID ''s1''" "UUID ''d1''"]
  by simp

subsection \<open>The validity timestamp\<close>




subsection \<open>The metadata field\<close>

text \<open>
  Claim C9. For every request, \<^verbatim>\<open>metadata\<close> is not among the fields handed over for
  overwriting, whatever its value, and the row of the input relation holds the values of
  those fields only; when the field names have no comma, \<^verbatim>\<open>metadata\<close> is no column of the
  input relation. The mutation statement contains the rule
  \<^verbatim>\<open>metadata = concat(md, $metadata),\<close>, and the parameter \<^verbatim>\<open>metadata\<close> is bound to the
  request's metadata when that is a non-empty map (any value that counts as true) and to
  the empty map when the request has no metadata or has null. In that case, when the
  request supplies at least one field and its field names are identifiers, the store
  gives the new version the metadata of the current version, unchanged.
\<close>

theorem metadata_only_as_parameter:
  "''metadata'' \<notin> fst ` set (supplied data) \<and>
   session_update_vals data = PList [PList (map snd (supplied data))] \<and>
   ((\<forall>k \<in> fst ` set data. CHR '','' \<notin> set k) \<longrightarrow>
        ''metadata'' \<notin> set (session_update_cols_lst data)) \<and>
   sublist ''metadata = concat(md, $metadata),''
     (last (fst (patch_session env session_id developer_id data))) \<and>
   map_of (snd (patch_session env session_id developer_id data)) ''metadata''
     = Some (metadata_arg data) \<and>
   (\<forall>m. map_of data ''metadata'' = Some m \<and> truthy m \<longrightarrow> metadata_arg data = m) \<and>
   (map_of data ''metadata'' = None \<or> map_of data ''metadata'' = Some PNone \<longrightarrow>
        metadata_arg data = PDict []) \<and>
   (enumerates (list_of_set env) \<and> supplied data \<noteq> [] \<and>
    (\<forall>k \<in> fst ` set data. field_name k) \<and>
    (map_of data ''metadata'' = None \<or> map_of data ''metadata'' = Some PNone) \<longrightarrow>
        (\<forall>md. distinct (map fst md) \<longrightarrow>
           new_version_metadata md
             (last (fst (patch_session env session_id developer_id data)))
             (snd (patch_session env session_id developer_id data)) = Inr md))"
proof -
  have a: "''metadata'' \<notin> fst ` set (supplied data)"
    using keys_supplied [of data] by blast
  have b: "(\<forall>k \<in> fst ` set data. CHR '','' \<notin> set k) \<longrightarrow>
        ''metadata'' \<notin> set (session_update_cols_lst data)"
  proof
    assume h: "\<forall>k \<in> fst ` set data. CHR '','' \<notin> set k"
    show "''metadata'' \<notin> set (session_update_cols_lst data)"
      by (rule column_not_in_cols_lst) (use a h in simp_all)
  qed
  have stmt: "last (fst (patch_session env session_id developer_id data))
      = update_query (session_update_cols data) (all_fields env data) (rest_fields env data)"
    by (simp add: patch_session_def queries_def)
  have c: "sublist ''metadata = concat(md, $metadata),''
     (last (fst (patch_session env session_id developer_id data)))"
    unfolding stmt by (rule update_query_concat_line)
  have d: "map_of (snd (patch_session env session_id developer_id data)) ''metadata''
     = Some (metadata_arg data)"
    by (simp add: patch_session_def)
  have e: "\<forall>m. map_of data ''metadata'' = Some m \<and> truthy m \<longrightarrow> metadata_arg data = m"
    by (simp add: metadata_arg_truthy)
  have f: "map_of data ''metadata'' = None \<or> map_of data ''metadata'' = Some PNone \<longrightarrow>
        metadata_arg data = PDict []"
    using metadata_arg_absent [of data] by blast
  have g: "enumerates (list_of_set env) \<and> supplied data \<noteq> [] \<and>
    (\<forall>k \<in> fst ` set data. field_name k) \<and>
    (map_of data ''metadata'' = None \<or> map_of data ''metadata'' = Some PNone) \<longrightarrow>
        (\<forall>md. distinct (map fst md) \<longrightarrow>
           new_version_metadata md
             (last (fst (patch_session env session_id developer_id data)))
             (snd (patch_session env session_id developer_id data)) = Inr md)"
  proof (intro impI allI)
    fix md :: pydict
    assume h: "enumerates (list_of_set env) \<and> supplied data \<noteq> [] \<and>
      (\<forall>k \<in> fst ` set data. field_name k) \<and>
      (map_of data ''metadata'' = None \<or> map_of data ''metadata'' = Some PNone)"
    assume dm: "distinct (map fst md)"
    have en: "enumerates (list_of_set env)" and ne: "supplied data \<noteq> []"
      and fn: "\<forall>k \<in> fst ` set data. field_name k"
      and ab: "map_of data ''metadata'' = None \<or> map_of data ''metadata'' = Some PNone"
      using h by blast+
    have plain: "\<forall>k \<in> fst ` set data. plain_name k"
      using fn by (simp add: field_name_def)
    have arg: "metadata_arg data = PDict []"
      using ab by (rule metadata_arg_absent)
    have "[] \<notin> set (put_columns env data)"
      using en ne fn by (rule no_empty_column)
    then show "new_version_metadata md
             (last (fst (patch_session env session_id developer_id data)))
             (snd (patch_session env session_id developer_id data)) = Inr md"
      using dm
      by (simp add: new_version_metadata_patch_session [OF en plain] arg concat_metadata_empty)
  qed
  show ?thesis using a b c d e f g session_update_vals_row by blast
qed

theorem metadata_only_as_parameter_witness:
  "''metadata'' \<notin> set (session_update_cols_lst
      [(''situation'', PStr ''hi''), (''metadata'', PDict [(''a'', PInt 1)])]) \<and>
   metadata_arg [(''situation'', PStr ''hi''), (''metadata'', PDict [(''a'', PInt 1)])]
     = PDict [(''a'', PInt 1)] \<and>
   metadata_arg [(''situation'', PStr ''hi'')] = PDict [] \<and>
   new_version_metadata [(''b'', PInt 2)]
     (last (fst (patch_session sample_env (UUID ''s1'') (UUID ''d1'') [(''situation'', PStr ''hi'')])))
     (snd (patch_session sample_env (UUID ''s1'') (UUID ''d1'') [(''situation'', PStr ''hi'')]))
     = Inr [(''b'', PInt 2)] \<and>
   new_version_metadata [(''b'', PInt 2)]
     (last (fst (patch_session sample_env (UUID ''s1'') (UUID ''d1'')
        [(''situation'', PStr ''hi''), (''metadata'', PNone)])))
     (snd (patch_session sample_env (UUID ''s1'') (UUID ''d1'')
        [(''situation'', PStr ''hi''), (''metadata'', PNone)]))
     = Inr [(''b'', PInt 2)]"
proof -
  let ?d1 = "[(''situation'', PStr ''hi''), (''metadata'', PDict [(''a'', PInt 1)])]"
  let ?d2 = "[(''situation'', PStr ''hi'')]"
  let ?d3 = "[(''situation'', PStr ''hi''), (''metadata'', PNone)]"
  have h1: "\<forall>k \<in> fst ` set ?d1. CHR '','' \<notin> set k" by simp
  have h2: "map_of ?d1 ''metadata'' = Some (PDict [(''a'', PInt 1)]) \<and> truthy (PDict [(''a'', PInt 1)])"
    by simp
  have h3: "map_of ?d2 ''metadata'' = None \<or> map_of ?d2 ''metadata'' = Some PNone" by simp
  have h4: "map_of ?d3 ''metadata'' = None \<or> map_of ?d3 ''metadata'' = Some PNone" by simp
  have h5: "distinct (map fst [(''b'', PInt 2)])" by simp
  have en: "enumerates (list_of_set sample_env)" by (rule enumerates_sample_env)
  have n2: "supplied ?d2 \<noteq> []" and n3: "supplied ?d3 \<noteq> []"
    by (simp_all add: supplied_def pop_rest_def)
  have f2: "\<forall>k \<in> fst ` set ?d2. field_name k" and f3: "\<forall>k \<in> fst ` set ?d3. field_name k"
    by (simp_all add: field_name_def plain_name_def)
  note t1 = metadata_only_as_parameter [of ?d1 sample_env "UUID ''s1''" "UUID ''d1''"]
  note t2 = metadata_only_as_parameter [of ?d2 sample_env "UUID ''s1''" "UUID ''d1''"]
  note t3 = metadata_only_as_parameter [of ?d3 sample_env "UUID ''s1''" "UUID ''d1''"]
  have r1: "''metadata'' \<notin> set (session_update_cols_lst ?d1)"
    using t1 h1 by blast
  have r2: "metadata_arg ?d1 = PDict [(''a'', PInt 1)]"
    using t1 h2 by blast
  have r3: "metadata_arg ?d2 = PDict []"
    using t2 h3 by blast
  have r4: "new_version_metadata [(''b'', PInt 2)]
     (last (fst (patch_session sample_env (UUID ''s1'') (UUID ''d1'') ?d2)))
     (snd (patch_session sample_env (UUID ''s1'') (UUID ''d1'') ?d2)) = Inr [(''b'', PInt 2)]"
    using t2 h3 h5 en n2 f2 by blast
  have r5: "new_version_metadata [(''b'', PInt 2)]
     (last (fst (patch_session sample_env (UUID ''s1'') (UUID ''d1'') ?d3)))
     (snd (patch_session sample_env (UUID ''s1'') (UUID ''d1'') ?d3)) = Inr [(''b'', PInt 2)]"
    using t3 h4 h5 en n3 f3 by blast
  show ?thesis using r1 r2 r3 r4 r5 by blast
qed

subsection \<open>Requests that supply no field\<close>

text \<open>
  Claim C4. On the empty request, \<^verbatim>\<open>patch_session\<close> returns, and the statement it
  returns is this: the input relation \<^verbatim>\<open>input[]\<close> has no column and one empty row, while
  the list of its columns is \<^verbatim>\<open>[""]\<close>; with the sets enumerated in alphabetical order, the
  head of the rule and the \<^verbatim>\<open>:put\<close> list begin with
  \<^verbatim>\<open>, created_at, developer_id, session_id, situation, summary\<close>, and so does the list of
  columns read from the current version. The empty name is among the columns of the new
  row and among the columns carried forward, whatever the order.
\<close>

theorem empty_patch_statement:
  "session_update_cols [] = [] \<and>
   session_update_vals [] = PList [PList []] \<and>
   session_update_cols_lst [] = [[]] \<and>
   all_fields sample_env [] = '', created_at, developer_id, session_id, situation, summary'' \<and>
   rest_fields sample_env [] = '', created_at, developer_id, session_id, situation, summary'' \<and>
   [] \<in> set (put_columns sample_env []) \<and>
   [] \<in> set (rest_fields_lst sample_env [])"
proof -
  have s: "supplied [] = []"
    by (simp add: supplied_def pop_rest_def)
  have a: "session_update_cols [] = []"
    by (simp add: session_update_cols_def cozo_process_mutate_data_def s)
  have b: "session_update_vals [] = PList [PList []]"
    by (simp add: session_update_vals_row s)
  have c: "session_update_cols_lst [] = [[]]"
    using s by (rule session_update_cols_lst_empty)
  have d: "all_fields sample_env [] = '', created_at, developer_id, session_id, situation, summary''"
    by code_simp
  have e: "rest_fields sample_env [] = '', created_at, developer_id, session_id, situation, summary''"
    by code_simp
  have f: "[] \<in> set (put_columns sample_env [])"
    using columns_of_empty_supplied(1) [OF enumerates_sample_env s] by simp
  have g: "[] \<in> set (rest_fields_lst sample_env [])"
    using columns_of_empty_supplied(2) [OF enumerates_sample_env s] by simp
  show ?thesis using a b c d e f g by blast
qed

text \<open>
  Claim C2. On a request that sets the metadata only, the columns of the \<^verbatim>\<open>:put\<close>
  statement are those of \<^verbatim>\<open>_fields\<close>, \<^verbatim>\<open>metadata\<close>, \<^verbatim>\<open>updated_at\<close> and the empty name, which
  is none of the former; and the empty name is at once the column of the input relation
  and a column read from the current version.
\<close>

theorem metadata_only_patch_columns:
  "set (put_columns sample_env [(''metadata'', PDict [(''a'', PInt 1)])])
     = insert [] (set fields \<union> {''metadata'', ''updated_at''}) \<and>
   set (put_columns sample_env [(''metadata'', PDict [(''a'', PInt 1)])])
     \<noteq> set fields \<union> {''metadata'', ''updated_at''} \<and>
   set (session_update_cols_lst [(''metadata'', PDict [(''a'', PInt 1)])])
     \<inter> set (rest_fields_lst sample_env [(''metadata'', PDict [(''a'', PInt 1)])]) = {[]}"
proof -
  let ?d = "[(''metadata'', PDict [(''a'', PInt 1)])]"
  have s: "supplied ?d = []"
    by (rule supplied_metadata_only)
  note cs = columns_of_empty_supplied [OF enumerates_sample_env s]
  have a: "set (put_columns sample_env ?d) = insert [] (set fields \<union> {''metadata'', ''updated_at''})"
    by (rule cs(1))
  have "[] \<notin> set fields \<union> {''metadata'', ''updated_at''}"
    by (simp add: empty_not_in_fields)
  then have b: "set (put_columns sample_env ?d) \<noteq> set fields \<union> {''metadata'', ''updated_at''}"
    using a by blast
  have c: "set (session_update_cols_lst ?d) \<inter> set (rest_fields_lst sample_env ?d) = {[]}"
    using cs(2,3) by simp
  show ?thesis using a b c by blast
qed

end
